theory Spec2Isabelle
  imports Complex_Main "HOL-Library.AList" "HOL-Library.Sublist"
begin

section \<open>JavaScript values\<close>

text \<open>
  The program is untyped JavaScript. The values it handles (API responses, result items,
  cache payloads) are modelled by one datatype. Numbers are restricted to integers (status
  codes, bitrate codes, millisecond timestamps); strings are byte strings holding the
  UTF-8 encoding of the JavaScript string. An object is the list of its own properties
  in \<open>Object.keys\<close> order, each property name once. \<open>Native f\<close> is the built-in
  function named \<open>f\<close>; the program meets one only as a member that an object literal
  inherits from \<open>Object.prototype\<close>.
\<close>

datatype jsval =
    Undefined
  | Null
  | Bool bool
  | Num int
  | Str string
  | Arr "jsval list"
  | Obj "(string \<times> jsval) list"
  | Native string

text \<open>
  What the JavaScript engine supplies and the repository does not hold is a parameter of
  the model: \<open>numberText\<close> is \<open>String(n)\<close> for an integer beyond the safe range
  (where the engine prints the shortest digits that identify the double, in exponent
  notation from \<open>1e21\<close>), \<open>lowerText\<close> is \<open>toLowerCase\<close> on a text that holds a
  character outside ASCII (the Unicode case mapping), and \<open>nativeText\<close> is the text
  \<open>String(f)\<close> of a built-in function.
\<close>

record builtins =
  numberText :: "int \<Rightarrow> string"
  lowerText :: "string \<Rightarrow> string"
  nativeText :: "string \<Rightarrow> string"

text \<open>The exceptions the modelled code can raise.\<close>

datatype error = SyntaxError | TypeError

text \<open>Truthiness, as \<open>if (v)\<close>, \<open>!v\<close> and \<open>v || d\<close> test it.\<close>

fun truthy :: "jsval \<Rightarrow> bool" where
  "truthy Undefined = False"
| "truthy Null = False"
| "truthy (Bool b) = b"
| "truthy (Num n) = (n \<noteq> 0)"
| "truthy (Str s) = (s \<noteq> [])"
| "truthy (Arr vs) = True"
| "truthy (Obj kvs) = True"
| "truthy (Native f) = True"

definition js_or :: "jsval \<Rightarrow> jsval \<Rightarrow> jsval" where
  "js_or a b = (if truthy a then a else b)"

text \<open>
  Property read \<open>v.name\<close>: a \<open>TypeError\<close> on \<open>undefined\<close> and \<open>null\<close>, the own
  property of an object, and \<open>undefined\<close> for a missing property and on the other
  values (none of the property names the program reads exists on a primitive, an array
  or a function).
\<close>

fun getProp :: "jsval \<Rightarrow> string \<Rightarrow> error + jsval" where
  "getProp Undefined name = Inl TypeError"
| "getProp Null name = Inl TypeError"
| "getProp (Obj kvs) name = Inr (case map_of kvs name of None \<Rightarrow> Undefined | Some v \<Rightarrow> v)"
| "getProp v name = Inr Undefined"

fun isArray :: "jsval \<Rightarrow> bool" where
  "isArray (Arr vs) = True"
| "isArray v = False"

text \<open>
  \<open>String(n)\<close>: the decimal digits of a safe integer (below \<open>2^53\<close> in magnitude),
  and what the engine prints beyond.
\<close>

fun digits :: "nat \<Rightarrow> string" where
  "digits n = (if n < 10 then [''0123456789'' ! n] else digits (n div 10) @ [''0123456789'' ! (n mod 10)])"

definition show_int :: "builtins \<Rightarrow> int \<Rightarrow> string" where
  "show_int js i =
     (if \<bar>i\<bar> < 9007199254740992
      then (if i < 0 then CHR ''-'' # digits (nat (- i)) else digits (nat i))
      else numberText js i)"

text \<open>
  \<open>String(v)\<close>. An array prints its elements joined by commas, \<open>null\<close> and
  \<open>undefined\<close> elements as the empty string; an object prints as \<open>[object Object]\<close>.
\<close>

fun toString :: "builtins \<Rightarrow> jsval \<Rightarrow> string"
  and join_elems :: "builtins \<Rightarrow> jsval list \<Rightarrow> string" where
  "toString js Undefined = ''undefined''"
| "toString js Null = ''null''"
| "toString js (Bool b) = (if b then ''true'' else ''false'')"
| "toString js (Num n) = show_int js n"
| "toString js (Str s) = s"
| "toString js (Arr vs) = join_elems js vs"
| "toString js (Obj kvs) = ''[object Object]''"
| "toString js (Native f) = nativeText js f"
| "join_elems js [] = []"
| "join_elems js (v # vs) =
     (if v = Undefined \<or> v = Null then [] else toString js v)
       @ (if vs = [] then [] else CHR '','' # join_elems js vs)"

text \<open>
  \<open>String.prototype.toLowerCase\<close>. On a text of ASCII characters it maps the capitals
  \<open>A\<close> to \<open>Z\<close> to their small letters (\<open>toLowerCase_ascii\<close>); on any other text
  it is the engine's Unicode case mapping, \<open>lowerText\<close>.
\<close>

definition lower_char :: "char \<Rightarrow> char" where
  "lower_char c =
     (case map_of (zip ''ABCDEFGHIJKLMNOPQRSTUVWXYZ'' ''abcdefghijklmnopqrstuvwxyz'') c of
        None \<Rightarrow> c
      | Some l \<Rightarrow> l)"

definition ascii :: "char \<Rightarrow> bool" where
  "ascii c \<longleftrightarrow> (of_char c :: nat) < 128"

definition toLowerCase_ascii :: "string \<Rightarrow> string" where
  "toLowerCase_ascii s = map lower_char s"

definition toLowerCase :: "builtins \<Rightarrow> string \<Rightarrow> string" where
  "toLowerCase js s = (if list_all ascii s then toLowerCase_ascii s else lowerText js s)"

text \<open>
  \<open>encodeURIComponent\<close>: the unreserved characters are kept, every other byte of the
  UTF-8 encoding becomes \<open>%XX\<close> with capital hexadecimal digits.
\<close>

definition unreserved :: "char \<Rightarrow> bool" where
  "unreserved c \<longleftrightarrow>
     c \<in> set (''ABCDEFGHIJKLMNOPQRSTUVWXYZabcdefghijklmnopqrstuvwxyz0123456789-_.!~*()'' @ [CHR 0x27])"

definition hex_digit :: "nat \<Rightarrow> char" where
  "hex_digit n = ''0123456789ABCDEF'' ! n"

definition encodeURIComponent :: "string \<Rightarrow> string" where
  "encodeURIComponent s =
     concat (map (\<lambda>c. if unreserved c then [c]
                       else [CHR ''%'', hex_digit ((of_char c :: nat) div 16), hex_digit ((of_char c :: nat) mod 16)]) s)"

section \<open>JSON persistence\<close>

text \<open>
  What \<open>JSON.parse(JSON.stringify(v))\<close> gives back: a property whose value is
  \<open>undefined\<close> or a function is left out of an object, such an array element comes
  back as \<open>null\<close>, every other value of the model is preserved.
\<close>

fun omitted :: "jsval \<Rightarrow> bool" where
  "omitted Undefined = True"
| "omitted (Native f) = True"
| "omitted v = False"

fun json_roundtrip :: "jsval \<Rightarrow> jsval"
  and json_elems :: "jsval list \<Rightarrow> jsval list"
  and json_props :: "(string \<times> jsval) list \<Rightarrow> (string \<times> jsval) list" where
  "json_roundtrip (Arr vs) = Arr (json_elems vs)"
| "json_roundtrip (Obj kvs) = Obj (json_props kvs)"
| "json_roundtrip Undefined = Undefined"
| "json_roundtrip Null = Null"
| "json_roundtrip (Bool b) = Bool b"
| "json_roundtrip (Num n) = Num n"
| "json_roundtrip (Str s) = Str s"
| "json_roundtrip (Native f) = Undefined"
| "json_elems [] = []"
| "json_elems (v # vs) = (if omitted v then Null else json_roundtrip v) # json_elems vs"
| "json_props [] = []"
| "json_props (kv # kvs) =
     (if omitted (snd kv) then json_props kvs
      else (fst kv, json_roundtrip (snd kv)) # json_props kvs)"

text \<open>The values that hold no \<open>undefined\<close> and no function anywhere inside.\<close>

fun json_clean :: "jsval \<Rightarrow> bool"
  and json_clean_list :: "jsval list \<Rightarrow> bool"
  and json_clean_props :: "(string \<times> jsval) list \<Rightarrow> bool" where
  "json_clean (Arr vs) = json_clean_list vs"
| "json_clean (Obj kvs) = json_clean_props kvs"
| "json_clean Undefined = False"
| "json_clean Null = True"
| "json_clean (Bool b) = True"
| "json_clean (Num n) = True"
| "json_clean (Str s) = True"
| "json_clean (Native f) = False"
| "json_clean_list [] = True"
| "json_clean_list (v # vs) = (json_clean v \<and> json_clean_list vs)"
| "json_clean_props [] = True"
| "json_clean_props (kv # kvs) = (json_clean (snd kv) \<and> json_clean_props kvs)"

section \<open>CacheManager\<close>

text \<open>
  One cache entry \<open>{ data, timestamp, lru }\<close>; both times are \<open>Date.now()\<close> readings,
  integers counting milliseconds. A missing \<open>data\<close> property is \<open>data = Undefined\<close>.
\<close>

record entry =
  data :: jsval
  timestamp :: int
  lru :: int

text \<open>
  The cache object: its properties in \<open>Object.keys\<close> order, which for the keys
  \<open>generateKey\<close> builds (none is an array index) is the order of insertion.
\<close>

type_synonym store = "(string \<times> entry) list"

text \<open>
  The content of \<open>localStorage\<close> under \<open>storageKey\<close>, as \<open>JSON.parse\<close> sees it:
  no item (\<open>getItem\<close> returns \<open>null\<close>), a text that is not JSON, or the text of a
  cache object. A JSON text of another shape (a number, a string, an array, entries
  without their fields) is outside the model.
\<close>

datatype document = NoDocument | Unparsable | Parsed store

definition maxItems :: nat where
  "maxItems = 15"

definition expireHours :: real where
  "expireHours = 2"

text \<open>
  The repository holds the cache manager twice: inside the single-file page
  (\<open>Monolith\<close>) and as the module the multi-source player imports (\<open>Module\<close>).
  The two differ in the key prefix and in what \<open>get\<close> returns. In \<open>generateKey\<close>,
  \<open>toLowerCase\<close> is applied to percent-encoded text, which is ASCII, so that the
  ASCII mapping is all of it (lemma \<open>toLowerCase_encodeURIComponent\<close> below).
\<close>

datatype variant = Monolith | Module

definition generateKey :: "variant \<Rightarrow> string \<Rightarrow> string" where
  "generateKey v query =
     (case v of Monolith \<Rightarrow> ''search_'' | Module \<Rightarrow> ''multisearch_'')
       @ toLowerCase_ascii (encodeURIComponent query)"

text \<open>\<open>JSON.parse(localStorage.getItem(storageKey)) || {}\<close>\<close>

fun loadCache :: "document \<Rightarrow> error + store" where
  "loadCache NoDocument = Inr []"
| "loadCache Unparsable = Inl SyntaxError"
| "loadCache (Parsed cache) = Inr cache"

text \<open>\<open>localStorage.setItem(storageKey, JSON.stringify(cache))\<close>, as the next read parses it.\<close>

definition saveCache :: "store \<Rightarrow> document" where
  "saveCache cache = Parsed (map (\<lambda>(k, e). (k, e\<lparr>data := json_roundtrip (data e)\<rparr>)) cache)"

text \<open>
  Every operation below takes the reading \<open>now\<close> of \<open>Date.now()\<close>; the clock is taken
  not to advance within one synchronous operation.
\<close>

definition isExpired :: "int \<Rightarrow> int \<Rightarrow> bool" where
  "isExpired now ts =
     (let hoursDiff = real_of_int (now - ts) / (1000 * 60 * 60)
      in hoursDiff > expireHours)"

text \<open>\<open>cache[k].lru\<close> for a key of the cache.\<close>

definition lru_of :: "store \<Rightarrow> string \<Rightarrow> int" where
  "lru_of cache k = lru (the (map_of cache k))"

text \<open>
  The sweep. Its first loop deletes every expired entry (\<open>removeExpired\<close>); then, if
  more than \<open>maxItems\<close> keys are left, the keys are sorted by \<open>lru\<close> (ascending;
  \<open>Array.prototype.sort\<close> is stable) and the first \<open>length - maxItems\<close> of them are
  deleted.
\<close>

definition removeExpired :: "int \<Rightarrow> store \<Rightarrow> store" where
  "removeExpired now cache = filter (\<lambda>(k, e). \<not> isExpired now (timestamp e)) cache"

definition cleanCache :: "int \<Rightarrow> store \<Rightarrow> store" where
  "cleanCache now cache =
     (let cache1 = removeExpired now cache;
          keys = map fst cache1
      in if length keys > maxItems
         then let sorted_keys = sort_key (lru_of cache1) keys
              in fold AList.delete (take (length keys - maxItems) sorted_keys) cache1
         else cache1)"

definition updateLRU :: "document \<Rightarrow> int \<Rightarrow> store \<Rightarrow> string \<Rightarrow> document" where
  "updateLRU doc now cache key =
     (case map_of cache key of
        Some e \<Rightarrow> saveCache (AList.update key (e\<lparr>lru := now\<rparr>) cache)
      | None \<Rightarrow> doc)"

text \<open>
  \<open>get\<close> returns the value and the document it leaves behind. A miss is the value
  \<open>null\<close>. The module returns \<open>Array.isArray(item.data) ? item.data : []\<close> where
  the single-file page returns \<open>item.data\<close>.
\<close>

definition returned :: "variant \<Rightarrow> jsval \<Rightarrow> jsval" where
  "returned v d = (case v of Monolith \<Rightarrow> d | Module \<Rightarrow> if isArray d then d else Arr [])"

definition CacheManager_get :: "variant \<Rightarrow> document \<Rightarrow> int \<Rightarrow> string \<Rightarrow> error + (jsval \<times> document)" where
  "CacheManager_get v doc now query =
     (case loadCache doc of
        Inl e \<Rightarrow> Inl e
      | Inr cache \<Rightarrow>
          let key = generateKey v query
          in (case map_of cache key of
                Some item \<Rightarrow>
                  if \<not> isExpired now (timestamp item)
                  then Inr (returned v (data item), updateLRU doc now cache key)
                  else Inr (Null, doc)
              | None \<Rightarrow> Inr (Null, doc)))"

definition CacheManager_set :: "variant \<Rightarrow> document \<Rightarrow> int \<Rightarrow> string \<Rightarrow> jsval \<Rightarrow> error + document" where
  "CacheManager_set v doc now query d =
     (case loadCache doc of
        Inl e \<Rightarrow> Inl e
      | Inr cache0 \<Rightarrow>
          let key = generateKey v query;
              cache = cleanCache now cache0;
              cache' = AList.update key \<lparr>data = d, timestamp = now, lru = now\<rparr> cache
          in Inr (saveCache cache'))"

definition clear :: "document \<Rightarrow> document" where
  "clear doc = NoDocument"

definition deleteKey :: "variant \<Rightarrow> document \<Rightarrow> string \<Rightarrow> error + document" where
  "deleteKey v doc query =
     (case loadCache doc of
        Inl e \<Rightarrow> Inl e
      | Inr cache \<Rightarrow> Inr (saveCache (AList.delete (generateKey v query) cache)))"

section \<open>MusicPlayer: validation and merge of the sources' results\<close>

text \<open>
  The string literals of the player are Chinese; they are given by the bytes of their
  UTF-8 encoding: \<open>source_QQ\<close> (QQ Music), \<open>source_NetEase\<close> (NetEase Cloud), \<open>source_Kugou\<close> (Kugou Music), \<open>quality_standard\<close> (standard quality), \<open>quality_high\<close> (high quality), \<open>quality_lossless\<close> (lossless quality), \<open>quality_hires\<close> (Hi-Res), \<open>quality_surround_hd\<close> (HD surround), \<open>quality_surround_immersive\<close> (immersive surround), \<open>quality_master\<close> (ultra-clear master), \<open>quality_hq\<close> (HQ high quality), \<open>quality_unknown\<close> (unknown quality).
\<close>

definition source_QQ :: string where
  "source_QQ = ''QQ'' @ [CHR 0xE9, CHR 0x9F, CHR 0xB3, CHR 0xE4, CHR 0xB9, CHR 0x90]"

definition source_NetEase :: string where
  "source_NetEase = [CHR 0xE7, CHR 0xBD, CHR 0x91, CHR 0xE6, CHR 0x98, CHR 0x93, CHR 0xE4, CHR 0xBA, CHR 0x91]"

definition source_Kugou :: string where
  "source_Kugou = [CHR 0xE9, CHR 0x85, CHR 0xB7, CHR 0xE7, CHR 0x8B, CHR 0x97, CHR 0xE9, CHR 0x9F, CHR 0xB3, CHR 0xE4, CHR 0xB9, CHR 0x90]"

definition quality_standard :: string where
  "quality_standard = [CHR 0xE6, CHR 0xA0, CHR 0x87, CHR 0xE5, CHR 0x87, CHR 0x86, CHR 0xE9, CHR 0x9F, CHR 0xB3, CHR 0xE8, CHR 0xB4, CHR 0xA8]"

definition quality_high :: string where
  "quality_high = [CHR 0xE9, CHR 0xAB, CHR 0x98, CHR 0xE5, CHR 0x93, CHR 0x81, CHR 0xE9, CHR 0x9F, CHR 0xB3, CHR 0xE8, CHR 0xB4, CHR 0xA8]"

definition quality_lossless :: string where
  "quality_lossless = [CHR 0xE6, CHR 0x97, CHR 0xA0, CHR 0xE6, CHR 0x8D, CHR 0x9F, CHR 0xE9, CHR 0x9F, CHR 0xB3, CHR 0xE8, CHR 0xB4, CHR 0xA8]"

definition quality_hires :: string where
  "quality_hires = ''Hi-Res''"

definition quality_surround_hd :: string where
  "quality_surround_hd = [CHR 0xE9, CHR 0xAB, CHR 0x98, CHR 0xE6, CHR 0xB8, CHR 0x85, CHR 0xE7, CHR 0x8E, CHR 0xAF, CHR 0xE7, CHR 0xBB, CHR 0x95, CHR 0xE5, CHR 0xA3, CHR 0xB0]"

definition quality_surround_immersive :: string where
  "quality_surround_immersive = [CHR 0xE6, CHR 0xB2, CHR 0x89, CHR 0xE6, CHR 0xB5, CHR 0xB8, CHR 0xE7, CHR 0x8E, CHR 0xAF, CHR 0xE7, CHR 0xBB, CHR 0x95, CHR 0xE5, CHR 0xA3, CHR 0xB0]"

definition quality_master :: string where
  "quality_master = [CHR 0xE8, CHR 0xB6, CHR 0x85, CHR 0xE6, CHR 0xB8, CHR 0x85, CHR 0xE6, CHR 0xAF, CHR 0x8D, CHR 0xE5, CHR 0xB8, CHR 0xA6]"

definition quality_hq :: string where
  "quality_hq = ''HQ'' @ [CHR 0xE9, CHR 0xAB, CHR 0x98, CHR 0xE5, CHR 0x93, CHR 0x81, CHR 0xE8, CHR 0xB4, CHR 0xA8]"

definition quality_unknown :: string where
  "quality_unknown = [CHR 0xE6, CHR 0x9C, CHR 0xAA, CHR 0xE7, CHR 0x9F, CHR 0xA5, CHR 0xE9, CHR 0x9F, CHR 0xB3, CHR 0xE8, CHR 0xB4, CHR 0xA8]"

text \<open>Sequencing of computations that may throw: the first exception wins.\<close>

definition sbind :: "error + 'a \<Rightarrow> ('a \<Rightarrow> error + 'b) \<Rightarrow> error + 'b" where
  "sbind m f = (case m of Inl e \<Rightarrow> Inl e | Inr x \<Rightarrow> f x)"

text \<open>\<open>Array.prototype.map\<close> with a callback that may throw.\<close>

fun mapM :: "('a \<Rightarrow> error + 'b) \<Rightarrow> 'a list \<Rightarrow> error + 'b list" where
  "mapM f [] = Inr []"
| "mapM f (x # xs) = sbind (f x) (\<lambda>y. sbind (mapM f xs) (\<lambda>ys. Inr (y # ys)))"

text \<open>
  \<open>mapQuality(br)\<close>: \<open>qualityMap[br] || unknown\<close>; the property key is \<open>String(br)\<close>.
  The read finds the eight labels of the literal and, for any other key, what the literal
  inherits from \<open>Object.prototype\<close>: its functions, and under \<open>__proto__\<close> the
  prototype itself, an object with no property that the program reads or that JSON
  writes.
\<close>

definition qualityMap :: "(string \<times> string) list" where
  "qualityMap =
     [(''1'', quality_standard), (''2'', quality_high), (''3'', quality_lossless),
      (''4'', quality_hires), (''5'', quality_surround_hd), (''6'', quality_surround_immersive),
      (''7'', quality_master), (''8'', quality_hq)]"

definition objectPrototype :: "(string \<times> jsval) list" where
  "objectPrototype =
     [(''constructor'', Native ''Object''),
      (''hasOwnProperty'', Native ''hasOwnProperty''),
      (''isPrototypeOf'', Native ''isPrototypeOf''),
      (''propertyIsEnumerable'', Native ''propertyIsEnumerable''),
      (''toLocaleString'', Native ''toLocaleString''),
      (''toString'', Native ''toString''),
      (''valueOf'', Native ''valueOf''),
      (''__defineGetter__'', Native ''__defineGetter__''),
      (''__defineSetter__'', Native ''__defineSetter__''),
      (''__lookupGetter__'', Native ''__lookupGetter__''),
      (''__lookupSetter__'', Native ''__lookupSetter__''),
      (''__proto__'', Obj [])]"

definition mapQuality :: "builtins \<Rightarrow> jsval \<Rightarrow> jsval" where
  "mapQuality js br =
     js_or (case map_of qualityMap (toString js br) of
              Some label \<Rightarrow> Str label
            | None \<Rightarrow> (case map_of objectPrototype (toString js br) of
                         Some member \<Rightarrow> member
                       | None \<Rightarrow> Undefined))
           (Str quality_unknown)"

text \<open>
  The three validators. Each returns the empty list on a response of the wrong shape
  and otherwise maps every element of \<open>response.data\<close> to a result item, an object
  \<open>{ source, id, title, artist, quality }\<close>; reading a property of a \<open>null\<close> or
  \<open>undefined\<close> element throws.
\<close>

definition resultItem :: "string \<Rightarrow> jsval \<Rightarrow> jsval \<Rightarrow> jsval \<Rightarrow> jsval \<Rightarrow> jsval" where
  "resultItem src n t a q =
     Obj [(''source'', Str src), (''id'', n), (''title'', t), (''artist'', a), (''quality'', q)]"

definition itemAPI1 :: "builtins \<Rightarrow> jsval \<Rightarrow> error + jsval" where
  "itemAPI1 js song =
     sbind (getProp song ''n'') (\<lambda>n.
     sbind (getProp song ''song_title'') (\<lambda>t.
     sbind (getProp song ''song_singer'') (\<lambda>a.
     sbind (getProp song ''quality'') (\<lambda>q.
       Inr (resultItem source_QQ n (Str (toString js t)) a (js_or q (Str quality_standard)))))))"

definition itemAPI2 :: "builtins \<Rightarrow> jsval \<Rightarrow> error + jsval" where
  "itemAPI2 js song =
     sbind (getProp song ''n'') (\<lambda>n.
     sbind (getProp song ''title'') (\<lambda>t.
     sbind (getProp song ''singer'') (\<lambda>a.
     sbind (getProp song ''br'') (\<lambda>br.
       Inr (resultItem source_NetEase n (Str (toString js t)) a (mapQuality js (js_or br (Num 1))))))))"

definition itemAPI3 :: "builtins \<Rightarrow> jsval \<Rightarrow> error + jsval" where
  "itemAPI3 js song =
     sbind (getProp song ''n'') (\<lambda>n.
     sbind (getProp song ''title'') (\<lambda>t.
     sbind (getProp song ''singer'') (\<lambda>a.
     sbind (getProp song ''br'') (\<lambda>br.
       Inr (resultItem source_Kugou n (Str (toString js t)) a (mapQuality js (js_or br (Num 1))))))))"

fun elements :: "jsval \<Rightarrow> jsval list" where
  "elements (Arr vs) = vs"
| "elements v = []"

definition validateDataAPI1 :: "builtins \<Rightarrow> jsval \<Rightarrow> error + jsval list" where
  "validateDataAPI1 js response =
     (if \<not> truthy response then Inr []
      else sbind (getProp response ''code'') (\<lambda>code.
           if code \<noteq> Num 200 then Inr []
           else sbind (getProp response ''data'') (\<lambda>d.
                if \<not> isArray d then Inr [] else mapM (itemAPI1 js) (elements d))))"

definition validateDataAPI2 :: "builtins \<Rightarrow> jsval \<Rightarrow> error + jsval list" where
  "validateDataAPI2 js response =
     (if \<not> truthy response then Inr []
      else sbind (getProp response ''code'') (\<lambda>code.
           if code \<noteq> Num 200 then Inr []
           else sbind (getProp response ''data'') (\<lambda>d.
                if \<not> isArray d then Inr [] else mapM (itemAPI2 js) (elements d))))"

definition validateDataAPI3 :: "builtins \<Rightarrow> jsval \<Rightarrow> error + jsval list" where
  "validateDataAPI3 js response =
     (if \<not> truthy response then Inr []
      else sbind (getProp response ''data'') (\<lambda>d.
           if \<not> isArray d then Inr [] else mapM (itemAPI3 js) (elements d)))"

text \<open>
  \<open>mergeResults\<close>. The key of an item is
  \<open>String(item.title || '').toLowerCase() + '|' + String(item.artist || '').toLowerCase()\<close>;
  the filter keeps an item when its key is not yet in the set \<open>seen\<close> and adds the key.
  The argument is the list of elements of the array that \<open>searchSongs\<close> builds, so the
  \<open>Array.isArray\<close> guard of the source always passes.
\<close>

definition compositeKey :: "builtins \<Rightarrow> jsval \<Rightarrow> error + string" where
  "compositeKey js item =
     sbind (getProp item ''title'') (\<lambda>t.
     sbind (getProp item ''artist'') (\<lambda>a.
       Inr (toLowerCase js (toString js (js_or t (Str [])))
              @ ''|'' @ toLowerCase js (toString js (js_or a (Str []))))))"

fun filter_seen :: "builtins \<Rightarrow> string set \<Rightarrow> jsval list \<Rightarrow> error + jsval list" where
  "filter_seen js seen [] = Inr []"
| "filter_seen js seen (item # items) =
     sbind (compositeKey js item) (\<lambda>key.
       if key \<in> seen then filter_seen js seen items
       else sbind (filter_seen js (insert key seen) items) (\<lambda>kept. Inr (item # kept)))"

definition mergeResults :: "builtins \<Rightarrow> jsval list \<Rightarrow> error + jsval list" where
  "mergeResults js items = filter_seen js {} items"

text \<open>
  \<open>renderResults\<close>, as far as it can throw: for every item it reads \<open>song.source\<close>
  and calls \<open>song.source.toLowerCase()\<close>, a \<open>TypeError\<close> when the item is \<open>null\<close>
  or \<open>undefined\<close> or when its source is not a string; the other fields are only
  converted to text. What it writes to the page is outside the model.
\<close>

definition renderItem :: "jsval \<Rightarrow> error + unit" where
  "renderItem song =
     sbind (getProp song ''source'') (\<lambda>source.
       case source of Str s \<Rightarrow> Inr () | _ \<Rightarrow> Inl TypeError)"

definition renderResults :: "jsval list \<Rightarrow> error + unit" where
  "renderResults items = sbind (mapM renderItem items) (\<lambda>rendered. Inr ())"

text \<open>
  \<open>searchSongs\<close>. Each of the three requests settles as fulfilled with the parsed
  response or as rejected (network failure, HTTP error or timeout); \<open>Promise.allSettled\<close>
  waits for all three. The search ends by showing the cached data, by rendering the
  merged list, or in its \<open>catch\<close> clause, which reports the exception in a toast. The
  cache is read at \<open>t_get\<close> and written at \<open>t_set\<close>; no other cache operation is taken
  to run while the requests are in flight. On a hit the module's \<open>get\<close> returns an
  array, whose elements \<open>showCachedResults\<close> passes to \<open>renderResults\<close>.
\<close>

datatype outcome = Fulfilled jsval | Rejected

datatype search_result = ShowCached jsval | Rendered "jsval list" | Toast error

definition settled :: "(jsval \<Rightarrow> error + jsval list) \<Rightarrow> outcome \<Rightarrow> error + jsval list" where
  "settled validate r = (case r of Fulfilled response \<Rightarrow> validate response | Rejected \<Rightarrow> Inr [])"

definition showCachedResults :: "jsval \<Rightarrow> error + unit" where
  "showCachedResults cachedData = renderResults (elements cachedData)"

definition searchSongs ::
  "builtins \<Rightarrow> document \<Rightarrow> int \<Rightarrow> int \<Rightarrow> string \<Rightarrow> outcome \<Rightarrow> outcome \<Rightarrow> outcome
     \<Rightarrow> search_result \<times> document" where
  "searchSongs js doc t_get t_set query api1Response api2Response api3Response =
     (case CacheManager_get Module doc t_get query of
        Inl e \<Rightarrow> (Toast e, doc)
      | Inr (cachedData, doc1) \<Rightarrow>
          if truthy cachedData
          then (case showCachedResults cachedData of
                  Inl e \<Rightarrow> (Toast e, doc1)
                | Inr rendered \<Rightarrow> (ShowCached cachedData, doc1))
          else (case sbind (settled (validateDataAPI1 js) api1Response) (\<lambda>api1Data.
                     sbind (settled (validateDataAPI2 js) api2Response) (\<lambda>api2Data.
                     sbind (settled (validateDataAPI3 js) api3Response) (\<lambda>api3Data.
                       mergeResults js (api1Data @ api2Data @ api3Data)))) of
                  Inl e \<Rightarrow> (Toast e, doc1)
                | Inr mergedData \<Rightarrow>
                    (case (if length mergedData > 0
                           then CacheManager_set Module doc1 t_set query (Arr mergedData)
                           else Inr doc1) of
                       Inl e \<Rightarrow> (Toast e, doc1)
                     | Inr doc2 \<Rightarrow>
                         (case renderResults mergedData of
                            Inl e \<Rightarrow> (Toast e, doc2)
                          | Inr rendered \<Rightarrow> (Rendered mergedData, doc2)))))"

section \<open>Auxiliary definitions\<close>

text \<open>The entries a document holds, as the next operation will read them.\<close>

fun entries :: "document \<Rightarrow> store" where
  "entries (Parsed cache) = cache"
| "entries NoDocument = []"
| "entries Unparsable = []"

text \<open>The values on which a property read throws.\<close>

fun nullish :: "jsval \<Rightarrow> bool" where
  "nullish Undefined = True"
| "nullish Null = True"
| "nullish v = False"

text \<open>
  The deduplication as the specification words it: going through the list in order, an
  item is kept exactly when no earlier item (and no key of \<open>seen\<close>) has its key.
\<close>

fun first_seen :: "('a \<Rightarrow> 'k) \<Rightarrow> 'k set \<Rightarrow> 'a list \<Rightarrow> 'a list" where
  "first_seen kf seen [] = []"
| "first_seen kf seen (x # xs) =
     (if kf x \<in> seen then first_seen kf seen xs else x # first_seen kf (insert (kf x) seen) xs)"

text \<open>The composite key of an item whose properties can be read.\<close>

definition itemKey :: "builtins \<Rightarrow> jsval \<Rightarrow> string" where
  "itemKey js item = (case compositeKey js item of Inl e \<Rightarrow> [] | Inr key \<Rightarrow> key)"

text \<open>The keys the capacity phase deletes.\<close>

definition victims :: "int \<Rightarrow> store \<Rightarrow> string list" where
  "victims now cache =
     (let cache1 = removeExpired now cache
      in take (length cache1 - maxItems) (sort_key (lru_of cache1) (map fst cache1)))"

text \<open>
  Example stores for the concrete evaluations below:
  \<open>n\<close> entries written at time 0, the \<open>i\<close>-th last read at time \<open>i\<close>.
\<close>

definition example_store :: "nat \<Rightarrow> store" where
  "example_store n =
     map (\<lambda>i. (generateKey Monolith (digits i), \<lparr>data = Arr [Num (int i)], timestamp = 0, lru = int i\<rparr>)) [0..<n]"

section \<open>Basic facts about the cache operations\<close>

lemma isExpired_iff: "isExpired now ts \<longleftrightarrow> now - ts > 7200000"
proof -
  have "isExpired now ts \<longleftrightarrow> real_of_int (now - ts) > real_of_int 7200000"
    by (simp add: isExpired_def expireHours_def field_simps)
  also have "\<dots> \<longleftrightarrow> now - ts > 7200000"
    by (rule of_int_less_iff)
  finally show ?thesis .
qed

lemma fold_delete: "fold AList.delete ks c = filter (\<lambda>p. fst p \<notin> set ks) c"
  by (induction ks arbitrary: c) (auto simp: AList.delete_eq case_prod_unfold intro: filter_cong)

lemma set_removeExpired:
  "set (removeExpired now cache) = {p \<in> set cache. \<not> isExpired now (timestamp (snd p))}"
  by (auto simp: removeExpired_def)

lemma cleanCache_subset: "set (cleanCache now cache) \<subseteq> set (removeExpired now cache)"
  by (auto simp: cleanCache_def Let_def fold_delete)

lemma cleanCache_small:
  "length (removeExpired now cache) \<le> maxItems \<Longrightarrow> cleanCache now cache = removeExpired now cache"
  by (simp add: cleanCache_def Let_def)

lemma entries_saveCache:
  "entries (saveCache cache) = map (\<lambda>(k, e). (k, e\<lparr>data := json_roundtrip (data e)\<rparr>)) cache"
  by (simp add: saveCache_def)

lemma set_update_subset: "set (AList.update k v al) \<subseteq> insert (k, v) (set al)"
  by (induction al) auto

lemma cleanCache_Nil: "cleanCache now [] = []"
  by (simp add: cleanCache_def removeExpired_def)

lemma set_entries_fresh:
  assumes "CacheManager_set v doc now query d = Inr doc'" "(k, e) \<in> set (entries doc')"
  shows "\<not> isExpired now (timestamp e)"
proof -
  obtain cache0 where l: "loadCache doc = Inr cache0"
    using assms(1) by (cases doc) (auto simp: CacheManager_set_def)
  let ?new = "\<lparr>data = d, timestamp = now, lru = now\<rparr>"
  let ?c = "AList.update (generateKey v query) ?new (cleanCache now cache0)"
  have "doc' = saveCache ?c"
    using assms(1) l by (simp add: CacheManager_set_def Let_def)
  with assms(2) obtain e0 where e0: "(k, e0) \<in> set ?c" "timestamp e = timestamp e0"
    by (auto simp: saveCache_def)
  from e0(1) set_update_subset
  have "(k, e0) = (generateKey v query, ?new) \<or> (k, e0) \<in> set (cleanCache now cache0)"
    by fastforce
  then show ?thesis
  proof
    assume "(k, e0) = (generateKey v query, ?new)"
    with e0(2) show ?thesis by (simp add: isExpired_iff)
  next
    assume "(k, e0) \<in> set (cleanCache now cache0)"
    with cleanCache_subset have "(k, e0) \<in> set (removeExpired now cache0)" by blast
    with e0(2) show ?thesis by (simp add: set_removeExpired)
  qed
qed

lemma get_expired:
  assumes "map_of cache (generateKey v query) = Some e" "isExpired now (timestamp e)"
  shows "CacheManager_get v (Parsed cache) now query = Inr (Null, Parsed cache)"
  using assms by (simp add: CacheManager_get_def)

lemma json_clean_not_omitted: "json_clean v \<Longrightarrow> \<not> omitted v"
  by (cases v) simp_all

lemma json_clean_roundtrip:
  "json_clean v \<Longrightarrow> json_roundtrip v = v"
  "json_clean_list vs \<Longrightarrow> json_elems vs = vs"
  "json_clean_props kvs \<Longrightarrow> json_props kvs = kvs"
  by (induction v and vs and kvs rule: json_clean_json_clean_list_json_clean_props.induct)
    (auto dest: json_clean_not_omitted)

lemma map_of_saveCache:
  "map_of (entries (saveCache cache)) k = map_option (\<lambda>e. e\<lparr>data := json_roundtrip (data e)\<rparr>) (map_of cache k)"
  by (induction cache) (auto simp: saveCache_def)

lemma returned_Arr: "returned v (Arr xs) = Arr xs"
  by (cases v) (simp_all add: returned_def)

lemma get_after_set:
  assumes "loadCache doc = Inr cache0" "\<not> isExpired now' now"
  shows "\<exists>doc' doc''. CacheManager_set v doc now query d = Inr doc'
           \<and> CacheManager_get v doc' now' query = Inr (returned v (json_roundtrip d), doc'')"
proof -
  let ?k = "generateKey v query"
  let ?c = "AList.update ?k \<lparr>data = d, timestamp = now, lru = now\<rparr> (cleanCache now cache0)"
  have s: "CacheManager_set v doc now query d = Inr (saveCache ?c)"
    using assms(1) by (simp add: CacheManager_set_def Let_def)
  have l: "loadCache (saveCache ?c) = Inr (entries (saveCache ?c))"
    by (simp add: saveCache_def)
  have m: "map_of (entries (saveCache ?c)) ?k = Some \<lparr>data = json_roundtrip d, timestamp = now, lru = now\<rparr>"
    by (simp add: map_of_saveCache update_conv')
  have "\<exists>doc''. CacheManager_get v (saveCache ?c) now' query = Inr (returned v (json_roundtrip d), doc'')"
    using assms(2) by (simp add: CacheManager_get_def Let_def l m del: loadCache.simps)
  with s show ?thesis by blast
qed

lemma length_filter_keys_notin:
  assumes "distinct keys" "distinct ks" "set ks \<subseteq> set keys"
  shows "length (filter (\<lambda>k. k \<notin> set ks) keys) = length keys - length ks"
proof -
  have "length (filter (\<lambda>k. k \<in> set ks) keys) = card ({k. k \<in> set ks} \<inter> set keys)"
    using assms(1) by (rule distinct_length_filter)
  also have "{k. k \<in> set ks} \<inter> set keys = set ks"
    using assms(3) by auto
  also have "card (set ks) = length ks"
    using assms(2) by (rule distinct_card)
  finally have "length (filter (\<lambda>k. k \<in> set ks) keys) = length ks" .
  moreover have "length (filter (\<lambda>k. k \<in> set ks) keys) + length (filter (\<lambda>k. \<not> k \<in> set ks) keys) = length keys"
    by (rule sum_length_filter_compl)
  ultimately show ?thesis by simp
qed

lemma length_filter_notin:
  assumes "distinct (map fst c)" "distinct ks" "set ks \<subseteq> set (map fst c)"
  shows "length (filter (\<lambda>p. fst p \<notin> set ks) c) = length c - length ks"
proof -
  have "length (filter (\<lambda>p. fst p \<notin> set ks) c) = length (map fst (filter (\<lambda>p. fst p \<notin> set ks) c))"
    by simp
  also have "map fst (filter (\<lambda>p. fst p \<notin> set ks) c) = filter (\<lambda>k. k \<notin> set ks) (map fst c)"
    by (simp add: filter_map comp_def)
  also have "length \<dots> = length (map fst c) - length ks"
    using assms by (rule length_filter_keys_notin)
  finally show ?thesis by simp
qed

lemma sort_key_take_le_drop:
  assumes "x \<in> set (take m (sort_key f ks))" "y \<in> set (drop m (sort_key f ks))"
  shows "f x \<le> f y"
proof -
  have "sorted (map f (take m (sort_key f ks) @ drop m (sort_key f ks)))"
    by (simp only: append_take_drop_id sorted_sort_key)
  then have "\<forall>a\<in>set (map f (take m (sort_key f ks))). \<forall>b\<in>set (map f (drop m (sort_key f ks))). a \<le> b"
    unfolding map_append sorted_append by blast
  then show ?thesis using assms by simp
qed

lemma distinct_removeExpired: "distinct (map fst cache) \<Longrightarrow> distinct (map fst (removeExpired now cache))"
  by (simp add: removeExpired_def distinct_map_filter)

lemma cleanCache_victims:
  "length (removeExpired now cache) > maxItems
   \<Longrightarrow> cleanCache now cache = filter (\<lambda>p. fst p \<notin> set (victims now cache)) (removeExpired now cache)"
  by (simp add: cleanCache_def victims_def Let_def fold_delete)

lemma lru_of_entry: "distinct (map fst c) \<Longrightarrow> p \<in> set c \<Longrightarrow> lru_of c (fst p) = lru (snd p)"
  by (cases p) (simp add: lru_of_def)

lemma cleanCache_capacity:
  assumes d: "distinct (map fst cache)" and over: "length (removeExpired now cache) > maxItems"
  shows "length (cleanCache now cache) = maxItems"
    and "subseq (cleanCache now cache) (removeExpired now cache)"
    and "\<forall>p\<in>set (removeExpired now cache) - set (cleanCache now cache).
           \<forall>q\<in>set (cleanCache now cache). lru (snd p) \<le> lru (snd q)"
proof -
  let ?c = "removeExpired now cache"
  let ?s = "sort_key (lru_of ?c) (map fst ?c)"
  let ?m = "length ?c - maxItems"
  have v: "victims now cache = take ?m ?s" by (simp add: victims_def Let_def)
  have dc: "distinct (map fst ?c)" using d by (rule distinct_removeExpired)
  have dv: "distinct (victims now cache)" unfolding v using dc by simp
  have sv: "set (victims now cache) \<subseteq> set (map fst ?c)"
  proof -
    have "set (take ?m ?s) \<subseteq> set ?s" by (rule set_take_subset)
    then show ?thesis unfolding v by simp
  qed
  have lv: "length (victims now cache) = ?m" unfolding v by simp
  have eq: "cleanCache now cache = filter (\<lambda>p. fst p \<notin> set (victims now cache)) ?c"
    using over by (rule cleanCache_victims)
  show "length (cleanCache now cache) = maxItems"
    unfolding eq using length_filter_notin [OF dc dv sv] lv over by simp
  show "subseq (cleanCache now cache) ?c"
    unfolding eq by (rule subseq_filter_left)
  show "\<forall>p\<in>set ?c - set (cleanCache now cache). \<forall>q\<in>set (cleanCache now cache). lru (snd p) \<le> lru (snd q)"
  proof (intro ballI)
    fix p q
    assume p: "p \<in> set ?c - set (cleanCache now cache)" and q: "q \<in> set (cleanCache now cache)"
    from p have pc: "p \<in> set ?c" and pv: "fst p \<in> set (take ?m ?s)"
      unfolding eq v by auto
    from q have qc: "q \<in> set ?c" and qv: "fst q \<notin> set (take ?m ?s)"
      unfolding eq v by auto
    from qc have "fst q \<in> set ?s" by simp
    then have "fst q \<in> set (take ?m ?s @ drop ?m ?s)" by (simp only: append_take_drop_id)
    then have "fst q \<in> set (take ?m ?s) \<union> set (drop ?m ?s)" by (simp only: set_append)
    with qv have "fst q \<in> set (drop ?m ?s)" by blast
    with pv have "lru_of ?c (fst p) \<le> lru_of ?c (fst q)" by (rule sort_key_take_le_drop)
    then show "lru (snd p) \<le> lru (snd q)"
      using lru_of_entry [OF dc pc] lru_of_entry [OF dc qc] by simp
  qed
qed

lemma cleanCache_keeps_newer:
  assumes d: "distinct (map fst cache)"
    and p: "p \<in> set (cleanCache now cache)" and q: "q \<in> set (removeExpired now cache)"
    and lt: "lru (snd p) < lru (snd q)"
  shows "q \<in> set (cleanCache now cache)"
proof (cases "length (removeExpired now cache) > maxItems")
  case False
  then show ?thesis using q by (simp add: cleanCache_small)
next
  case True
  show ?thesis
  proof (rule ccontr)
    assume "q \<notin> set (cleanCache now cache)"
    with q have "q \<in> set (removeExpired now cache) - set (cleanCache now cache)" by simp
    with cleanCache_capacity(3) [OF d True] p have "lru (snd q) \<le> lru (snd p)" by blast
    with lt show False by simp
  qed
qed

lemma get_refresh_survives:
  assumes d: "distinct (map fst cache)"
    and m: "map_of cache (generateKey v query) = Some e"
    and live_t: "\<not> isExpired t (timestamp e)" and live_now: "\<not> isExpired now (timestamp e)"
  shows "\<exists>ret cache'. CacheManager_get v (Parsed cache) t query = Inr (ret, Parsed cache')
            \<and> map_option lru (map_of cache' (generateKey v query)) = Some t
            \<and> (\<forall>p\<in>set (cleanCache now cache'). lru (snd p) < t
                  \<longrightarrow> generateKey v query \<in> fst ` set (cleanCache now cache'))"
proof -
  let ?K = "generateKey v query"
  let ?u = "AList.update ?K (e\<lparr>lru := t\<rparr>) cache"
  let ?c' = "entries (saveCache ?u)"
  let ?E = "e\<lparr>lru := t, data := json_roundtrip (data e)\<rparr>"
  have g: "CacheManager_get v (Parsed cache) t query = Inr (returned v (data e), Parsed ?c')"
    using m live_t by (simp add: CacheManager_get_def updateLRU_def saveCache_def)
  have mk: "map_of ?c' ?K = Some ?E"
    by (simp add: map_of_saveCache update_conv')
  have fst_c': "map fst ?c' = map fst ?u"
    by (simp add: saveCache_def case_prod_unfold comp_def)
  have du: "distinct (map fst ?u)" using d by (rule distinct_update)
  have dc': "distinct (map fst ?c')" using du fst_c' by simp
  have in_c': "(?K, ?E) \<in> set ?c'" using mk by (rule map_of_SomeD)
  have in_live: "(?K, ?E) \<in> set (removeExpired now ?c')"
    using in_c' live_now by (simp add: set_removeExpired)
  have "\<forall>p\<in>set (cleanCache now ?c'). lru (snd p) < t \<longrightarrow> ?K \<in> fst ` set (cleanCache now ?c')"
  proof (intro ballI impI)
    fix p assume p: "p \<in> set (cleanCache now ?c')" and lt: "lru (snd p) < t"
    have "(?K, ?E) \<in> set (cleanCache now ?c')"
      using dc' p in_live by (rule cleanCache_keeps_newer) (simp add: lt)
    then show "?K \<in> fst ` set (cleanCache now ?c')" by force
  qed
  moreover have "map_option lru (map_of ?c' ?K) = Some t" using mk by simp
  ultimately show ?thesis using g by blast
qed

lemma length_cleanCache_le:
  assumes "distinct (map fst cache)"
  shows "length (cleanCache now cache) \<le> maxItems"
proof (cases "length (removeExpired now cache) > maxItems")
  case True
  with assms show ?thesis by (simp add: cleanCache_capacity(1))
next
  case False
  then show ?thesis by (simp add: cleanCache_small)
qed

lemma length_update_le: "length (AList.update k v al) \<le> Suc (length al)"
  by (induction al) auto

lemma set_leaves_at_most_one_more:
  assumes "distinct (map fst cache)" "CacheManager_set v (Parsed cache) now query d = Inr doc'"
  shows "length (entries doc') \<le> maxItems + 1"
proof -
  let ?c = "AList.update (generateKey v query) \<lparr>data = d, timestamp = now, lru = now\<rparr> (cleanCache now cache)"
  have "doc' = saveCache ?c" using assms(2) by (simp add: CacheManager_set_def Let_def)
  then have "length (entries doc') = length ?c" by (simp add: saveCache_def)
  also have "\<dots> \<le> Suc (length (cleanCache now cache))" by (rule length_update_le)
  finally show ?thesis using length_cleanCache_le [OF assms(1), of now] by simp
qed

section \<open>Basic facts about the merge\<close>

lemma ascii_unreserved: "unreserved c \<Longrightarrow> ascii c"
  by (auto simp: unreserved_def ascii_def)

lemma ascii_hex_digit: "n < 16 \<Longrightarrow> ascii (hex_digit n)"
proof -
  assume "n < 16"
  then have "hex_digit n \<in> set ''0123456789ABCDEF''"
    unfolding hex_digit_def by (intro nth_mem) simp
  then show ?thesis by (auto simp: ascii_def)
qed

lemma ascii_encodeURIComponent: "list_all ascii (encodeURIComponent s)"
proof (induction s)
  case Nil
  show ?case by (simp add: encodeURIComponent_def)
next
  case (Cons c s)
  have d: "(of_char c :: nat) div 16 < 16" using nat_of_char_less_256 [of c] by arith
  have m: "(of_char c :: nat) mod 16 < 16" by simp
  have p: "ascii CHR ''%''" by (simp add: ascii_def)
  from Cons show ?case
    using ascii_unreserved [of c] ascii_hex_digit [OF d] ascii_hex_digit [OF m] p
    by (simp add: encodeURIComponent_def)
qed

lemma toLowerCase_encodeURIComponent:
  "toLowerCase js (encodeURIComponent query) = toLowerCase_ascii (encodeURIComponent query)"
  by (simp add: toLowerCase_def ascii_encodeURIComponent)

lemma mapQuality_examples:
  "mapQuality js (Num 3) = Str quality_lossless"
  "mapQuality js (Num 9) = Str quality_unknown"
  "mapQuality js (Str ''constructor'') = Native ''Object''"
  by (simp_all add: mapQuality_def qualityMap_def objectPrototype_def js_or_def show_int_def quality_lossless_def)

lemma getProp_total: "\<not> nullish v \<Longrightarrow> \<exists>w. getProp v name = Inr w"
  by (cases v) simp_all

lemma compositeKey_itemKey: "\<not> nullish item \<Longrightarrow> compositeKey js item = Inr (itemKey js item)"
proof -
  assume n: "\<not> nullish item"
  obtain t where t: "getProp item ''title'' = Inr t" using getProp_total [OF n] by blast
  obtain a where a: "getProp item ''artist'' = Inr a" using getProp_total [OF n] by blast
  show ?thesis by (simp add: itemKey_def compositeKey_def sbind_def t a)
qed

lemma filter_seen_first_seen:
  "\<forall>x\<in>set items. \<not> nullish x \<Longrightarrow> filter_seen js seen items = Inr (first_seen (itemKey js) seen items)"
  by (induction items arbitrary: seen) (auto simp: compositeKey_itemKey sbind_def)


lemma subseq_first_seen: "subseq (first_seen kf seen xs) xs"
  by (induction xs arbitrary: seen) auto

lemma set_first_seen: "set (first_seen kf seen xs) \<subseteq> set xs"
  by (induction xs arbitrary: seen) auto

lemma keys_first_seen: "kf ` set (first_seen kf seen xs) = kf ` set xs - seen"
  by (induction xs arbitrary: seen) auto

lemma distinct_first_seen: "distinct (map kf (first_seen kf seen xs))"
proof (induction xs arbitrary: seen)
  case Nil
  show ?case by simp
next
  case (Cons x xs)
  have "kf x \<notin> kf ` set (first_seen kf (insert (kf x) seen) xs)"
    by (simp add: keys_first_seen)
  with Cons show ?case by simp
qed

lemma find_first_seen:
  "y \<in> set (first_seen kf seen xs) \<Longrightarrow> find (\<lambda>x. kf x = kf y) xs = Some y"
proof (induction xs arbitrary: seen)
  case Nil
  then show ?case by simp
next
  case (Cons x xs)
  show ?case
  proof (cases "kf x \<in> seen")
    case True
    with Cons.prems have y: "y \<in> set (first_seen kf seen xs)" by simp
    then have "kf y \<in> kf ` set xs - seen" using keys_first_seen [of kf seen xs] by blast
    with True have "kf x \<noteq> kf y" by auto
    with Cons.IH [OF y] show ?thesis by simp
  next
    case False
    with Cons.prems have "y = x \<or> y \<in> set (first_seen kf (insert (kf x) seen) xs)" by simp
    then show ?thesis
    proof
      assume "y = x"
      then show ?thesis by simp
    next
      assume y: "y \<in> set (first_seen kf (insert (kf x) seen) xs)"
      then have "kf y \<in> kf ` set xs - insert (kf x) seen"
        using keys_first_seen [of kf "insert (kf x) seen" xs] by blast
      then have "kf x \<noteq> kf y" by auto
      with Cons.IH [OF y] show ?thesis by simp
    qed
  qed
qed

lemma mergeResults_props:
  assumes "\<forall>x\<in>set items. \<not> nullish x"
  shows "\<exists>merged. mergeResults js items = Inr merged \<and> subseq merged items
           \<and> distinct (map (compositeKey js) merged)
           \<and> set (map (compositeKey js) merged) = set (map (compositeKey js) items)
           \<and> (\<forall>y\<in>set merged. find (\<lambda>x. compositeKey js x = compositeKey js y) items = Some y)"
proof -
  let ?m = "first_seen (itemKey js) {} items"
  have m: "mergeResults js items = Inr ?m"
    using assms by (simp add: mergeResults_def filter_seen_first_seen)
  have sub: "subseq ?m items" by (rule subseq_first_seen)
  have mem: "set ?m \<subseteq> set items" by (rule set_first_seen)
  have ck: "\<And>x. x \<in> set items \<Longrightarrow> compositeKey js x = Inr (itemKey js x)"
    using assms compositeKey_itemKey by blast
  have map_items: "map (compositeKey js) items = map (Inr \<circ> itemKey js) items"
    using ck by simp
  have map_m: "map (compositeKey js) ?m = map (Inr \<circ> itemKey js) ?m"
    using ck mem by auto
  have d: "distinct (map (compositeKey js) ?m)"
    unfolding map_m using distinct_first_seen [of "itemKey js" "{}" items]
    by (simp add: distinct_map comp_def inj_on_def)
  have "Inr ` (itemKey js ` set ?m) = Inr ` (itemKey js ` set items)"
    using keys_first_seen [of "itemKey js" "{}" items] by simp
  then have s: "set (map (compositeKey js) ?m) = set (map (compositeKey js) items)"
    unfolding map_m map_items by (simp add: image_image)
  have f: "\<forall>y\<in>set ?m. find (\<lambda>x. compositeKey js x = compositeKey js y) items = Some y"
  proof
    fix y assume y: "y \<in> set ?m"
    have "find (\<lambda>x. compositeKey js x = compositeKey js y) items = find (\<lambda>x. itemKey js x = itemKey js y) items"
      using ck y mem by (intro find_cong) auto
    with find_first_seen [OF y] show "find (\<lambda>x. compositeKey js x = compositeKey js y) items = Some y" by simp
  qed
  from m sub d s f show ?thesis by blast
qed

lemma mapM_all:
  assumes "mapM f xs = Inr ys" "\<And>x y. f x = Inr y \<Longrightarrow> P y"
  shows "\<forall>y\<in>set ys. P y"
  using assms(1)
proof (induction xs arbitrary: ys)
  case Nil
  then show ?case by simp
next
  case (Cons x xs)
  then show ?case
    by (auto simp: sbind_def split: sum.splits dest: assms(2))
qed

lemma resultItem_renders: "\<not> nullish (resultItem src n t a q) \<and> renderItem (resultItem src n t a q) = Inr ()"
  by (simp add: resultItem_def renderItem_def sbind_def)

lemma itemAPI1_object: "itemAPI1 js song = Inr y \<Longrightarrow> \<not> nullish y \<and> renderItem y = Inr ()"
  by (auto simp: itemAPI1_def sbind_def resultItem_renders split: sum.splits)

lemma itemAPI2_object: "itemAPI2 js song = Inr y \<Longrightarrow> \<not> nullish y \<and> renderItem y = Inr ()"
  by (auto simp: itemAPI2_def sbind_def resultItem_renders split: sum.splits)

lemma itemAPI3_object: "itemAPI3 js song = Inr y \<Longrightarrow> \<not> nullish y \<and> renderItem y = Inr ()"
  by (auto simp: itemAPI3_def sbind_def resultItem_renders split: sum.splits)

lemma validateDataAPI1_objects:
  "validateDataAPI1 js r = Inr ys \<Longrightarrow> \<forall>y\<in>set ys. \<not> nullish y \<and> renderItem y = Inr ()"
  by (auto simp: validateDataAPI1_def sbind_def split: if_splits sum.splits
      dest!: mapM_all [where P = "\<lambda>y. \<not> nullish y \<and> renderItem y = Inr ()"] itemAPI1_object)

lemma validateDataAPI2_objects:
  "validateDataAPI2 js r = Inr ys \<Longrightarrow> \<forall>y\<in>set ys. \<not> nullish y \<and> renderItem y = Inr ()"
  by (auto simp: validateDataAPI2_def sbind_def split: if_splits sum.splits
      dest!: mapM_all [where P = "\<lambda>y. \<not> nullish y \<and> renderItem y = Inr ()"] itemAPI2_object)

lemma validateDataAPI3_objects:
  "validateDataAPI3 js r = Inr ys \<Longrightarrow> \<forall>y\<in>set ys. \<not> nullish y \<and> renderItem y = Inr ()"
  by (auto simp: validateDataAPI3_def sbind_def split: if_splits sum.splits
      dest!: mapM_all [where P = "\<lambda>y. \<not> nullish y \<and> renderItem y = Inr ()"] itemAPI3_object)

lemma settled_objects:
  assumes "settled validate r = Inr ys"
    "\<And>response zs. validate response = Inr zs \<Longrightarrow> \<forall>y\<in>set zs. \<not> nullish y \<and> renderItem y = Inr ()"
  shows "\<forall>y\<in>set ys. \<not> nullish y \<and> renderItem y = Inr ()"
  using assms by (cases r) (auto simp: settled_def)

lemma mapM_renderItem: "\<forall>y\<in>set ys. renderItem y = Inr () \<Longrightarrow> \<exists>units. mapM renderItem ys = Inr units"
  by (induction ys) (auto simp: sbind_def)

lemma renderResults_ok: "\<forall>y\<in>set ys. renderItem y = Inr () \<Longrightarrow> renderResults ys = Inr ()"
  using mapM_renderItem [of ys] by (auto simp: renderResults_def sbind_def)

lemma renderResults_Nil: "renderResults [] = Inr ()"
  by (simp add: renderResults_def sbind_def)

lemma filter_seen_subset: "filter_seen js seen items = Inr kept \<Longrightarrow> set kept \<subseteq> set items"
proof (induction items arbitrary: seen kept)
  case Nil
  then show ?case by simp
next
  case (Cons item items)
  then show ?case
    by (fastforce simp: sbind_def split: sum.splits if_splits)
qed

lemma mergeResults_subset: "mergeResults js items = Inr merged \<Longrightarrow> set merged \<subseteq> set items"
  unfolding mergeResults_def by (rule filter_seen_subset)

lemma get_leaves_readable:
  assumes "CacheManager_get v doc now query = Inr (d, doc1)"
  shows "\<exists>cache. loadCache doc1 = Inr cache"
proof (cases doc)
  case Unparsable
  with assms show ?thesis by (simp add: CacheManager_get_def)
next
  case NoDocument
  with assms show ?thesis by (auto simp: CacheManager_get_def)
next
  case (Parsed cache)
  with assms show ?thesis
    by (auto simp: CacheManager_get_def Let_def updateLRU_def saveCache_def split: option.splits if_splits)
qed

lemma set_readable:
  "loadCache doc = Inr cache \<Longrightarrow> \<exists>doc'. CacheManager_set v doc now query d = Inr doc'"
  by (simp add: CacheManager_set_def Let_def)

lemma searchSongs_renders:
  assumes g: "CacheManager_get Module doc t_get query = Inr (cachedData, doc1)" and miss: "\<not> truthy cachedData"
    and a1: "settled (validateDataAPI1 js) r1 = Inr api1Data"
    and a2: "settled (validateDataAPI2 js) r2 = Inr api2Data"
    and a3: "settled (validateDataAPI3 js) r3 = Inr api3Data"
  shows "\<exists>merged doc'. mergeResults js (api1Data @ api2Data @ api3Data) = Inr merged
           \<and> searchSongs js doc t_get t_set query r1 r2 r3 = (Rendered merged, doc')"
proof -
  have all: "\<forall>y\<in>set (api1Data @ api2Data @ api3Data). \<not> nullish y \<and> renderItem y = Inr ()"
    using settled_objects [OF a1 validateDataAPI1_objects] settled_objects [OF a2 validateDataAPI2_objects]
      settled_objects [OF a3 validateDataAPI3_objects] by auto
  then have "\<forall>y\<in>set (api1Data @ api2Data @ api3Data). \<not> nullish y" by blast
  then obtain merged where m: "mergeResults js (api1Data @ api2Data @ api3Data) = Inr merged"
    using mergeResults_props by blast
  have "\<forall>y\<in>set merged. renderItem y = Inr ()"
    using mergeResults_subset [OF m] all by blast
  then have r: "renderResults merged = Inr ()" by (rule renderResults_ok)
  obtain cache where "loadCache doc1 = Inr cache" using get_leaves_readable [OF g] by blast
  then obtain doc2 where s: "CacheManager_set Module doc1 t_set query (Arr merged) = Inr doc2"
    using set_readable by blast
  have "searchSongs js doc t_get t_set query r1 r2 r3 = (Rendered merged, if length merged > 0 then doc2 else doc1)"
    using g miss a1 a2 a3 m s r by (auto simp: searchSongs_def sbind_def renderResults_Nil)
  with m show ?thesis by blast
qed

section \<open>Expiry\<close>

text \<open>
  Claim C10. Expiry is a strict comparison. An entry is expired exactly when its age is
  more than two hours of milliseconds. An entry whose age is exactly two hours is still
  returned by \<open>get\<close>, is kept by the expiry loop of the sweep, and is kept by the whole
  sweep whenever the capacity phase has nothing to evict.
\<close>

theorem expiry_is_strict:
  "(isExpired now ts \<longleftrightarrow> now - ts > 2 * (1000 * 60 * 60))
   \<and> (map_of cache (generateKey v query) = Some e \<and> now - timestamp e = 2 * (1000 * 60 * 60)
        \<longrightarrow> (\<exists>doc'. CacheManager_get v (Parsed cache) now query = Inr (returned v (data e), doc')))
   \<and> ((k, e) \<in> set cache \<and> now - timestamp e = 2 * (1000 * 60 * 60)
        \<longrightarrow> (k, e) \<in> set (removeExpired now cache)
            \<and> (length (removeExpired now cache) \<le> maxItems \<longrightarrow> (k, e) \<in> set (cleanCache now cache)))"
  by (auto simp: isExpired_iff CacheManager_get_def set_removeExpired cleanCache_small)

theorem expiry_is_strict_witness:
  "CacheManager_get Monolith (Parsed (example_store 2)) 7200000 ''1''
     = Inr (Arr [Num 1],
            saveCache (AList.update ''search_1'' \<lparr>data = Arr [Num 1], timestamp = 0, lru = 7200000\<rparr> (example_store 2)))
   \<and> (''search_1'', \<lparr>data = Arr [Num 1], timestamp = 0, lru = 1\<rparr>) \<in> set (cleanCache 7200000 (example_store 2))"
proof -
  have m: "map_of (example_store 2) (generateKey Monolith ''1'') = Some \<lparr>data = Arr [Num 1], timestamp = 0, lru = 1\<rparr>"
    by code_simp
  have i: "(''search_1'', \<lparr>data = Arr [Num 1], timestamp = 0, lru = 1\<rparr>) \<in> set (example_store 2)"
    by code_simp
  have l: "length (removeExpired 7200000 (example_store 2)) \<le> maxItems"
    by code_simp
  have g: "generateKey Monolith ''1'' = ''search_1''"
    by code_simp
  from expiry_is_strict [of 7200000 0 "example_store 2" Monolith "''1''"
      "\<lparr>data = Arr [Num 1], timestamp = 0, lru = 1\<rparr>" "''search_1''"] m i l
  show ?thesis
    by (auto simp: CacheManager_get_def updateLRU_def returned_def g)
qed

text \<open>
  Claim C3, as stated, fails for \<open>get\<close>: a \<open>get\<close> that finds an expired entry returns
  \<open>null\<close> and writes nothing, so the entry stays in the persisted document.
\<close>

theorem get_keeps_expired_entry:
  "CacheManager_get Monolith (Parsed (example_store 1)) 7200001 ''0'' = Inr (Null, Parsed (example_store 1))
   \<and> example_store 1 = [(''search_0'', \<lparr>data = Arr [Num 0], timestamp = 0, lru = 0\<rparr>)]
   \<and> isExpired 7200001 0"
  by code_simp

text \<open>
  Claim C3, amended. No entry of the document a \<open>set\<close> leaves behind is expired at the
  time of that \<open>set\<close>. A \<open>get\<close> whose entry is expired returns \<open>null\<close> and leaves
  the document as it was: the entry is ignored, not removed.
\<close>

theorem expired_swept_by_set_ignored_by_get:
  "(CacheManager_set v doc now query d = Inr doc' \<and> (k, e) \<in> set (entries doc')
        \<longrightarrow> \<not> isExpired now (timestamp e))
   \<and> (map_of cache (generateKey v query) = Some e \<and> isExpired now (timestamp e)
        \<longrightarrow> CacheManager_get v (Parsed cache) now query = Inr (Null, Parsed cache))"
  using set_entries_fresh get_expired by blast

theorem expired_swept_by_set_ignored_by_get_witness:
  "\<not> isExpired 7200001 7200001
   \<and> CacheManager_get Monolith (Parsed (example_store 1)) 7200001 ''0'' = Inr (Null, Parsed (example_store 1))"
proof -
  have s: "CacheManager_set Monolith (Parsed (example_store 1)) 7200001 ''1'' Null
           = Inr (Parsed [(''search_1'', \<lparr>data = Null, timestamp = 7200001, lru = 7200001\<rparr>)])"
    by code_simp
  have m: "map_of (example_store 1) (generateKey Monolith ''0'') = Some \<lparr>data = Arr [Num 0], timestamp = 0, lru = 0\<rparr>"
    by code_simp
  have x: "isExpired 7200001 (timestamp \<lparr>data = Arr [Num 0], timestamp = 0, lru = 0\<rparr>)"
    by (simp add: isExpired_iff)
  from expired_swept_by_set_ignored_by_get [of Monolith "Parsed (example_store 1)" 7200001 "''1''" Null
      "Parsed [(''search_1'', \<lparr>data = Null, timestamp = 7200001, lru = 7200001\<rparr>)]" "''search_1''"
      "\<lparr>data = Null, timestamp = 7200001, lru = 7200001\<rparr>"] s
  have a: "\<not> isExpired 7200001 7200001" by simp
  from expired_swept_by_set_ignored_by_get [of Monolith "Parsed (example_store 1)" 7200001 "''0''" Null
      "Parsed []" "''x''" "\<lparr>data = Arr [Num 0], timestamp = 0, lru = 0\<rparr>" "example_store 1"] m x
  have b: "CacheManager_get Monolith (Parsed (example_store 1)) 7200001 ''0'' = Inr (Null, Parsed (example_store 1))"
    by simp
  from a b show ?thesis by simp
qed

section \<open>Corrupted documents\<close>

text \<open>
  Claim C5, as stated, fails: on a document that is not valid JSON, \<open>JSON.parse\<close> throws
  and neither \<open>get\<close> nor \<open>set\<close> catches the \<open>SyntaxError\<close>.
\<close>

theorem malformed_document_throws:
  "CacheManager_get Monolith Unparsable 0 ''a'' = Inl SyntaxError
   \<and> CacheManager_set Monolith Unparsable 0 ''a'' (Arr []) = Inl SyntaxError"
  by (simp add: CacheManager_get_def CacheManager_set_def)

text \<open>
  Claim C5, amended. When no document is stored, the store is treated as an empty
  mapping: \<open>get\<close> is a cache miss that writes nothing, and \<open>set\<close> proceeds against the
  empty store and leaves exactly the new entry. When the stored document is not valid
  JSON, \<open>get\<close>, \<open>set\<close> and \<open>deleteKey\<close> throw the \<open>SyntaxError\<close> of
  \<open>JSON.parse\<close>.
\<close>

theorem absent_document_is_empty_store:
  "CacheManager_get v NoDocument now query = Inr (Null, NoDocument)
   \<and> CacheManager_set v NoDocument now query d
       = Inr (Parsed [(generateKey v query, \<lparr>data = json_roundtrip d, timestamp = now, lru = now\<rparr>)])
   \<and> CacheManager_get v Unparsable now query = Inl SyntaxError
   \<and> CacheManager_set v Unparsable now query d = Inl SyntaxError
   \<and> deleteKey v Unparsable query = Inl SyntaxError"
  by (simp add: CacheManager_get_def CacheManager_set_def deleteKey_def cleanCache_Nil saveCache_def)

section \<open>Capacity\<close>

text \<open>
  Claim C1 on a full cache. The sweep runs before the insertion, so a \<open>set\<close> under a
  new key on a store of \<open>maxItems\<close> live entries evicts nothing and leaves sixteen.
\<close>

theorem set_leaves_sixteen_entries:
  "map_sum id (\<lambda>doc'. length (entries doc'))
     (CacheManager_set Monolith (Parsed (example_store 15)) 0 ''new'' (Arr [])) = Inr 16
   \<and> length (example_store 15) = 15 \<and> maxItems = 15"
  by code_simp

section \<open>Reading back what was written\<close>

text \<open>
  Claim C2, as stated, fails on a data list that holds an \<open>undefined\<close> property (the
  validators of the multi-source player produce such items when the source omits the
  artist): the store is persisted as JSON, which leaves the property out, so \<open>get\<close>
  returns a list that differs from the one passed to \<open>set\<close>.
\<close>

theorem get_after_set_drops_undefined:
  "(case CacheManager_set Monolith NoDocument 0 ''q'' (Arr [Obj [(''title'', Str ''t''), (''artist'', Undefined)]]) of
      Inl e \<Rightarrow> Inl e
    | Inr doc' \<Rightarrow> map_sum id fst (CacheManager_get Monolith doc' 0 ''q''))
   = Inr (Arr [Obj [(''title'', Str ''t'')]])"
  by code_simp

text \<open>
  Claim C2, amended. On every readable document, for every query and every data list,
  \<open>set\<close> succeeds and a \<open>get\<close> of the same query, made before the new entry's TTL has
  elapsed, returns the JSON round trip of the list; that is the list itself whenever it
  holds no \<open>undefined\<close> (and no function) value.
\<close>

theorem get_after_set_returns_json_of_data:
  "loadCache doc = Inr cache0 \<and> \<not> isExpired now' now \<longrightarrow>
     (\<exists>doc' doc''. CacheManager_set v doc now query (Arr items) = Inr doc'
        \<and> CacheManager_get v doc' now' query = Inr (json_roundtrip (Arr items), doc'')
        \<and> (json_clean (Arr items) \<longrightarrow> json_roundtrip (Arr items) = Arr items))"
  using get_after_set [of doc cache0 now' now v query "Arr items"] json_clean_roundtrip(2) [of items]
  by (auto simp: returned_Arr)

theorem get_after_set_returns_json_of_data_witness:
  "map_sum id fst (CacheManager_get Monolith
      (Parsed [(''search_q'', \<lparr>data = Arr [Str ''a''], timestamp = 5, lru = 5\<rparr>)]) 6 ''q'') = Inr (Arr [Str ''a''])"
proof -
  have l: "loadCache NoDocument = Inr []" by simp
  have x: "\<not> isExpired 6 5" by (simp add: isExpired_iff)
  have s: "CacheManager_set Monolith NoDocument 5 ''q'' (Arr [Str ''a''])
            = Inr (Parsed [(''search_q'', \<lparr>data = Arr [Str ''a''], timestamp = 5, lru = 5\<rparr>)])"
    by code_simp
  from get_after_set_returns_json_of_data [of NoDocument "[]" 6 5 Monolith "''q''" "[Str ''a'']"] l x s
  show ?thesis by auto
qed

section \<open>Payloads that are not lists\<close>

text \<open>
  Claim C9, as stated, fails in both copies of the cache manager: on a live entry whose
  payload is a string, the single-file page returns the payload itself and the module
  returns an empty list; neither is the \<open>null\<close> of a cache miss.
\<close>

theorem get_nonlist_payload_is_not_a_miss:
  "map_sum id fst (CacheManager_get Monolith
      (Parsed [(''search_q'', \<lparr>data = Str ''x'', timestamp = 0, lru = 0\<rparr>)]) 0 ''q'') = Inr (Str ''x'')
   \<and> map_sum id fst (CacheManager_get Module
      (Parsed [(''multisearch_q'', \<lparr>data = Str ''x'', timestamp = 0, lru = 0\<rparr>)]) 0 ''q'') = Inr (Arr [])"
  by code_simp

text \<open>
  Claim C9, amended. For every live entry whose payload is not a list, the module's
  \<open>get\<close> raises nothing and returns an empty list, never the payload; it counts as a
  hit, so the entry's \<open>lru\<close> is refreshed and persisted.
\<close>

theorem module_get_nonlist_payload_gives_empty_list:
  "map_of cache (generateKey Module query) = Some e \<and> \<not> isExpired now (timestamp e) \<and> \<not> isArray (data e)
    \<longrightarrow> CacheManager_get Module (Parsed cache) now query
          = Inr (Arr [], saveCache (AList.update (generateKey Module query) (e\<lparr>lru := now\<rparr>) cache))"
  by (simp add: CacheManager_get_def returned_def updateLRU_def)

theorem module_get_nonlist_payload_gives_empty_list_witness:
  "CacheManager_get Module (Parsed [(''multisearch_q'', \<lparr>data = Str ''x'', timestamp = 0, lru = 0\<rparr>)]) 9 ''q''
     = Inr (Arr [], Parsed [(''multisearch_q'', \<lparr>data = Str ''x'', timestamp = 0, lru = 9\<rparr>)])"
proof -
  have g: "generateKey Module ''q'' = ''multisearch_q''" by code_simp
  have x: "\<not> isExpired 9 0" by (simp add: isExpired_iff)
  from module_get_nonlist_payload_gives_empty_list
    [of "[(''multisearch_q'', \<lparr>data = Str ''x'', timestamp = 0, lru = 0\<rparr>)]" "''q''"
        "\<lparr>data = Str ''x'', timestamp = 0, lru = 0\<rparr>" 9] x
  show ?thesis by (simp add: g saveCache_def)
qed

section \<open>Merging the sources' results\<close>



section \<open>Validation\<close>

text \<open>
  Claim C8 on responses with an empty or missing title and artist. The three validators
  map every element of \<open>data\<close> to an item and drop none: an empty title and artist are
  kept as they are, a missing title becomes the string \<open>undefined\<close> and a missing
  artist stays \<open>undefined\<close>.
\<close>

theorem validators_keep_items_without_title_or_artist:
  "validateDataAPI1 js (Obj [(''code'', Num 200), (''data'', Arr [Obj [(''n'', Num 1), (''song_title'', Str ''''), (''song_singer'', Str '''')]])])
     = Inr [resultItem source_QQ (Num 1) (Str '''') (Str '''') (Str quality_standard)]
   \<and> validateDataAPI2 js (Obj [(''code'', Num 200), (''data'', Arr [Obj [(''n'', Num 2)]])])
     = Inr [resultItem source_NetEase (Num 2) (Str ''undefined'') Undefined (Str quality_standard)]
   \<and> validateDataAPI3 js (Obj [(''data'', Arr [Obj [(''n'', Num 3), (''title'', Str ''''), (''singer'', Null)]])])
     = Inr [resultItem source_Kugou (Num 3) (Str '''') Null (Str quality_standard)]"
  by (simp add: validateDataAPI1_def validateDataAPI2_def validateDataAPI3_def itemAPI1_def itemAPI2_def itemAPI3_def
      sbind_def js_or_def mapQuality_def qualityMap_def show_int_def quality_standard_def)

section \<open>Search with failing sources\<close>

text \<open>
  Claim C7 on a fulfilled response whose \<open>data\<close> holds \<open>null\<close>. The first source
  answers \<open>{code: 200, data: [null]}\<close>, the second request is rejected and the third
  source answers with one good song. The first validator throws on the \<open>null\<close>
  element, the exception reaches the \<open>catch\<close> clause of \<open>searchSongs\<close>, and the search
  ends in the error toast: the third source's song is neither rendered nor cached.
\<close>

theorem searchSongs_null_element_loses_good_sources:
  "searchSongs js NoDocument 0 1 ''q''
      (Fulfilled (Obj [(''code'', Num 200), (''data'', Arr [Null])]))
      Rejected
      (Fulfilled (Obj [(''data'', Arr [Obj [(''n'', Num 3), (''title'', Str ''Song''), (''singer'', Str ''X'')]])]))
     = (Toast TypeError, NoDocument)
   \<and> settled (validateDataAPI1 js) (Fulfilled (Obj [(''code'', Num 200), (''data'', Arr [Null])])) = Inl TypeError
   \<and> settled (validateDataAPI3 js)
        (Fulfilled (Obj [(''data'', Arr [Obj [(''n'', Num 3), (''title'', Str ''Song''), (''singer'', Str ''X'')]])]))
     = Inr [resultItem source_Kugou (Num 3) (Str ''Song'') (Str ''X'') (Str quality_standard)]"
  by (simp add: searchSongs_def CacheManager_get_def settled_def validateDataAPI1_def validateDataAPI3_def
      itemAPI1_def itemAPI3_def sbind_def js_or_def mapQuality_def qualityMap_def show_int_def quality_standard_def)

text \<open>
  What the search does tolerate: when the cache has no usable entry and every fulfilled
  response passes through its validator, then whatever subset of the three requests is
  rejected, the search renders the merge of the validated lists, a rejected request
  contributing the empty list (lemma \<open>searchSongs_renders\<close>). An example with the second
  request rejected:
\<close>

lemma searchSongs_rejected_source_example:
  "fst (searchSongs js NoDocument 0 1 ''q''
      (Fulfilled (Obj [(''code'', Num 200), (''data'', Arr [Obj [(''n'', Num 1), (''song_title'', Str ''Song''), (''song_singer'', Str ''X'')]])]))
      Rejected
      (Fulfilled (Obj [(''data'', Arr [Obj [(''n'', Num 3), (''title'', Str ''SONG''), (''singer'', Str ''x'')],
                                        Obj [(''n'', Num 4), (''title'', Str ''Other''), (''singer'', Str ''Y'')]])])))
   = Rendered [resultItem source_QQ (Num 1) (Str ''Song'') (Str ''X'') (Str quality_standard),
               resultItem source_Kugou (Num 4) (Str ''Other'') (Str ''Y'') (Str quality_standard)]"
proof -
  let ?r1 = "Fulfilled (Obj [(''code'', Num 200), (''data'', Arr [Obj [(''n'', Num 1), (''song_title'', Str ''Song''), (''song_singer'', Str ''X'')]])])"
  let ?r3 = "Fulfilled (Obj [(''data'', Arr [Obj [(''n'', Num 3), (''title'', Str ''SONG''), (''singer'', Str ''x'')],
                                        Obj [(''n'', Num 4), (''title'', Str ''Other''), (''singer'', Str ''Y'')]])])"
  let ?A = "resultItem source_QQ (Num 1) (Str ''Song'') (Str ''X'') (Str quality_standard)"
  let ?C1 = "resultItem source_Kugou (Num 3) (Str ''SONG'') (Str ''x'') (Str quality_standard)"
  let ?C2 = "resultItem source_Kugou (Num 4) (Str ''Other'') (Str ''Y'') (Str quality_standard)"
  have g: "CacheManager_get Module NoDocument 0 ''q'' = Inr (Null, NoDocument)"
    by (simp add: CacheManager_get_def)
  have t: "\<not> truthy Null" by simp
  have a1: "settled (validateDataAPI1 js) ?r1 = Inr [?A]"
    by (simp add: settled_def validateDataAPI1_def itemAPI1_def sbind_def js_or_def)
  have a2: "settled (validateDataAPI2 js) Rejected = Inr []"
    by (simp add: settled_def)
  have a3: "settled (validateDataAPI3 js) ?r3 = Inr [?C1, ?C2]"
    by (simp add: settled_def validateDataAPI3_def itemAPI3_def sbind_def js_or_def
        mapQuality_def qualityMap_def show_int_def quality_standard_def)
  have m: "mergeResults js ([?A] @ [] @ [?C1, ?C2]) = Inr [?A, ?C2]"
    by (simp add: mergeResults_def compositeKey_def resultItem_def sbind_def js_or_def toLowerCase_def
        toLowerCase_ascii_def ascii_def lower_char_def)
  from searchSongs_renders [OF g t a1 a2 a3, of 1]
  obtain merged doc' where "mergeResults js ([?A] @ [] @ [?C1, ?C2]) = Inr merged"
    and "searchSongs js NoDocument 0 1 ''q'' ?r1 Rejected ?r3 = (Rendered merged, doc')"
    by blast
  with m show ?thesis by simp
qed

section \<open>Eviction order\<close>

text \<open>
  Claim C4. For a cache object (each key once): when more than \<open>maxItems\<close> entries
  are left after the expiry loop, the sweep keeps exactly \<open>maxItems\<close> of them, in
  their order, and every entry it removes has an \<open>lru\<close> no greater than that of
  every entry it keeps. In any sweep, an unexpired entry survives whenever an entry with
  a smaller \<open>lru\<close> does. A \<open>get\<close> that hits at time \<open>t\<close> persists \<open>lru = t\<close> for
  its key, so that in a sweep of the document it leaves the refreshed key survives
  whenever any entry last read before \<open>t\<close> does. In the witness, seventeen entries are
  swept down to the fifteen most recently read, and after a \<open>get\<close> of the oldest key
  the sweep evicts the two untouched keys that follow it instead.
\<close>

theorem sweep_evicts_least_recently_used:
  "distinct (map fst cache) \<longrightarrow>
     (length (removeExpired now cache) > maxItems \<longrightarrow>
        length (cleanCache now cache) = maxItems
        \<and> subseq (cleanCache now cache) (removeExpired now cache)
        \<and> (\<forall>p\<in>set (removeExpired now cache) - set (cleanCache now cache).
              \<forall>q\<in>set (cleanCache now cache). lru (snd p) \<le> lru (snd q)))
     \<and> (\<forall>p\<in>set (cleanCache now cache). \<forall>q\<in>set (removeExpired now cache).
           lru (snd p) < lru (snd q) \<longrightarrow> q \<in> set (cleanCache now cache))
     \<and> (map_of cache (generateKey v query) = Some e
          \<and> \<not> isExpired t (timestamp e) \<and> \<not> isExpired now (timestamp e) \<longrightarrow>
          (\<exists>ret cache'. CacheManager_get v (Parsed cache) t query = Inr (ret, Parsed cache')
             \<and> map_option lru (map_of cache' (generateKey v query)) = Some t
             \<and> (\<forall>p\<in>set (cleanCache now cache'). lru (snd p) < t
                   \<longrightarrow> generateKey v query \<in> fst ` set (cleanCache now cache'))))"
proof (intro impI conjI)
  assume d: "distinct (map fst cache)"
  show "\<forall>p\<in>set (cleanCache now cache). \<forall>q\<in>set (removeExpired now cache).
           lru (snd p) < lru (snd q) \<longrightarrow> q \<in> set (cleanCache now cache)"
    using cleanCache_keeps_newer [OF d] by blast
next
  assume d: "distinct (map fst cache)" and over: "length (removeExpired now cache) > maxItems"
  show "length (cleanCache now cache) = maxItems"
    using d over by (rule cleanCache_capacity(1))
  show "subseq (cleanCache now cache) (removeExpired now cache)"
    using d over by (rule cleanCache_capacity(2))
  show "\<forall>p\<in>set (removeExpired now cache) - set (cleanCache now cache).
              \<forall>q\<in>set (cleanCache now cache). lru (snd p) \<le> lru (snd q)"
    using d over by (rule cleanCache_capacity(3))
next
  assume d: "distinct (map fst cache)"
    and h: "map_of cache (generateKey v query) = Some e
          \<and> \<not> isExpired t (timestamp e) \<and> \<not> isExpired now (timestamp e)"
  show "\<exists>ret cache'. CacheManager_get v (Parsed cache) t query = Inr (ret, Parsed cache')
             \<and> map_option lru (map_of cache' (generateKey v query)) = Some t
             \<and> (\<forall>p\<in>set (cleanCache now cache'). lru (snd p) < t
                   \<longrightarrow> generateKey v query \<in> fst ` set (cleanCache now cache'))"
    using get_refresh_survives [OF d] h by blast
qed

theorem sweep_evicts_least_recently_used_witness:
  "length (cleanCache 0 (example_store 17)) = maxItems
   \<and> map fst (cleanCache 0 (example_store 17)) = map (\<lambda>i. generateKey Monolith (digits i)) [2..<17]
   \<and> (case CacheManager_get Monolith (Parsed (example_store 17)) 100 ''0'' of
         Inl err \<Rightarrow> []
       | Inr (ret, doc') \<Rightarrow> map fst (cleanCache 100 (entries doc')))
       = generateKey Monolith ''0'' # map (\<lambda>i. generateKey Monolith (digits i)) [3..<17]"
proof -
  have d: "distinct (map fst (example_store 17))" by code_simp
  have over: "length (removeExpired 0 (example_store 17)) > maxItems" by code_simp
  from sweep_evicts_least_recently_used [of "example_store 17" 0] d over
  have a: "length (cleanCache 0 (example_store 17)) = maxItems" by blast
  have b: "map fst (cleanCache 0 (example_store 17)) = map (\<lambda>i. generateKey Monolith (digits i)) [2..<17]"
    by code_simp
  have c: "(case CacheManager_get Monolith (Parsed (example_store 17)) 100 ''0'' of
         Inl err \<Rightarrow> []
       | Inr (ret, doc') \<Rightarrow> map fst (cleanCache 100 (entries doc')))
       = generateKey Monolith ''0'' # map (\<lambda>i. generateKey Monolith (digits i)) [3..<17]"
    by code_simp
  from a b c show ?thesis by blast
qed

end
